theory Spec2Isabelle
  imports Main
begin

section \<open>Python strings\<close>

text \<open>
  A Python \<open>str\<close> is a sequence of Unicode code points; it is modelled as a list of
  natural numbers. \<open>str\<close> turns an Isabelle string literal into such a list, so that
  \<open>str ''/api''\<close> reads like the Python literal \<open>'/api'\<close>.
\<close>

type_synonym str = "nat list"

definition str :: "string \<Rightarrow> str" where
  "str s = map of_char s"

text \<open>
  \<open>str.strip()\<close> without argument removes leading and trailing whitespace. The code
  points Python 3 treats as whitespace (\<open>str.isspace\<close>) are TAB..CR, FS..US, SPACE,
  NEL, NBSP, U+1680, U+2000..U+200A, U+2028, U+2029, U+202F, U+205F and U+3000.
\<close>

definition isspace :: "nat \<Rightarrow> bool" where
  "isspace c \<longleftrightarrow>
     (9 \<le> c \<and> c \<le> 13) \<or> (28 \<le> c \<and> c \<le> 32) \<or> c = 133 \<or> c = 160 \<or> c = 5760 \<or>
     (8192 \<le> c \<and> c \<le> 8202) \<or> c = 8232 \<or> c = 8233 \<or> c = 8239 \<or> c = 8287 \<or> c = 12288"

definition strip :: "str \<Rightarrow> str" where
  "strip s = rev (dropWhile isspace (rev (dropWhile isspace s)))"

section \<open>Errors\<close>

text \<open>
  Every exception the modelled code can raise is a value. \<open>Unsupported\<close> is not a Python
  exception: it marks a regular expression that uses syntax outside the fragment
  interpreted below, where the embedding says nothing about the program.
\<close>

datatype error =
    IndexError
  | ReError
  | ValueError
  | BinasciiError
  | UnicodeDecodeError
  | OverflowError
  | StorageError
  | Unsupported

section \<open>The fragment of Python's \<open>re\<close> the code uses\<close>

text \<open>
  An atom matches one character: a literal, \<open>.\<close> (any character but newline, as no flag is
  given) or \<open>[^c]\<close>. An item is an atom, or an atom under the greedy quantifiers \<open>*\<close> and
  \<open>+\<close>. A pattern is a sequence of items.
\<close>

datatype re_atom = Lit nat | AnyChar | NotChar nat

datatype re_item = One re_atom | Star re_atom | Plus re_atom

fun atom_ok :: "re_atom \<Rightarrow> nat \<Rightarrow> bool" where
  "atom_ok (Lit a) c = (c = a)"
| "atom_ok AnyChar c = (c \<noteq> 10)"
| "atom_ok (NotChar a) c = (c \<noteq> a)"

text \<open>
  \<open>re_run full items s\<close> is the backtracking matcher anchored at the start of \<open>s\<close>. With
  \<open>full\<close> the whole of \<open>s\<close> must be consumed (\<open>re.fullmatch\<close>); without it any prefix may
  match (\<open>re.match\<close>). The result is \<open>None\<close> when there is no match, and otherwise the text
  each item consumed, in order; a quantified item takes as many characters as it can and
  gives them back one at a time when the rest of the pattern fails.
\<close>

fun re_run :: "bool \<Rightarrow> re_item list \<Rightarrow> str \<Rightarrow> str list option" where
  "re_run full [] s = (if full \<and> s \<noteq> [] then None else Some [])"
| "re_run full (One a # r) [] = None"
| "re_run full (One a # r) (c # s) =
     (if atom_ok a c then map_option (\<lambda>gs. [c] # gs) (re_run full r s) else None)"
| "re_run full (Star a # r) [] = map_option (\<lambda>gs. [] # gs) (re_run full r [])"
| "re_run full (Star a # r) (c # s) =
     (case (if atom_ok a c then re_run full (Star a # r) s else None) of
        Some (g # gs) \<Rightarrow> Some ((c # g) # gs)
      | _ \<Rightarrow> map_option (\<lambda>gs. [] # gs) (re_run full r (c # s)))"
| "re_run full (Plus a # r) [] = None"
| "re_run full (Plus a # r) (c # s) =
     (if atom_ok a c then
        (case re_run full (Star a # r) s of
           Some (g # gs) \<Rightarrow> Some ((c # g) # gs)
         | _ \<Rightarrow> None)
      else None)"

text \<open>
  Compiling a pattern given as text. The fragment has literal characters, \<open>.\<close> and a
  \<open>*\<close> after either. A \<open>*\<close> with nothing to repeat, or straight after another \<open>*\<close>, is
  \<open>re.error\<close>. Any other special character (code points 36, 40, 41, 43, 63, 91, 92, 93, 94, 123, 124
  and 125: dollar, parentheses, plus, question mark, brackets, backslash, caret, braces
  and bar) is outside the fragment.
\<close>

definition re_special :: "nat \<Rightarrow> bool" where
  "re_special c \<longleftrightarrow> c \<in> set [36, 40, 41, 42, 43, 46, 63, 91, 92, 93, 94, 123, 124, 125]"

definition re_atom_of :: "nat \<Rightarrow> re_atom" where
  "re_atom_of c = (if c = 46 then AnyChar else Lit c)"

fun re_compile :: "str \<Rightarrow> error + re_item list" where
  "re_compile [] = Inr []"
| "re_compile [c] =
     (if c = 42 then Inl ReError
      else if re_special c \<and> c \<noteq> 46 then Inl Unsupported
      else Inr [One (re_atom_of c)])"
| "re_compile (c # q # cs) =
     (if c = 42 then Inl ReError
      else if re_special c \<and> c \<noteq> 46 then Inl Unsupported
      else if q = 42 then
        (case re_compile cs of
           Inl e \<Rightarrow> Inl e
         | Inr r \<Rightarrow> Inr (Star (re_atom_of c) # r))
      else
        (case re_compile (q # cs) of
           Inl e \<Rightarrow> Inl e
         | Inr r \<Rightarrow> Inr (One (re_atom_of c) # r)))"

text \<open>\<open>re.match(pattern, string)\<close>, read for its truth value only.\<close>

definition re_match :: "str \<Rightarrow> str \<Rightarrow> error + bool" where
  "re_match pattern s =
     (case re_compile pattern of
        Inl e \<Rightarrow> Inl e
      | Inr items \<Rightarrow> Inr (re_run False items s \<noteq> None))"

section \<open>\<open>Auth.require_auth\<close>\<close>

text \<open>
  The body of the loop for one entry of \<open>excluded_paths\<close>: the entry is stripped, its last
  character is read (\<open>IndexError\<close> on the empty string), the pattern is built and matched
  against the path with \<open>re.match\<close>.
\<close>

definition exclusion_matches :: "str \<Rightarrow> str \<Rightarrow> error + bool" where
  "exclusion_matches x path =
     (let exclusion_path = strip x in
      if exclusion_path = [] then Inl IndexError
      else
        let pattern =
          (if last exclusion_path = 42 then butlast exclusion_path @ str ''.*''
           else if last exclusion_path = 47 then butlast exclusion_path @ str ''/*''
           else exclusion_path @ str ''/*'')
        in re_match pattern path)"

fun require_auth_loop :: "str \<Rightarrow> str list \<Rightarrow> error + bool" where
  "require_auth_loop path [] = Inr True"
| "require_auth_loop path (x # xs) =
     (case exclusion_matches x path of
        Inl e \<Rightarrow> Inl e
      | Inr True \<Rightarrow> Inr False
      | Inr False \<Rightarrow> require_auth_loop path xs)"

definition require_auth :: "str option \<Rightarrow> str list option \<Rightarrow> error + bool" where
  "require_auth path excluded_paths =
     (case path of
        None \<Rightarrow> Inr True
      | Some p \<Rightarrow>
          (case excluded_paths of
             None \<Rightarrow> Inr True
           | Some ex \<Rightarrow> require_auth_loop p ex))"

text \<open>
  Vocabulary for the properties of \<open>require_auth\<close>. An entry is literal when, once
  stripped, it is not empty and holds no character that is special in a regular
  expression; \<open>entry_prefix\<close> is the stripped entry without its trailing slash, if it has
  one; \<open>startswith s p\<close> is \<open>s.startswith(p)\<close>.
\<close>

definition literal_entry :: "str \<Rightarrow> bool" where
  "literal_entry x \<longleftrightarrow> strip x \<noteq> [] \<and> list_all (\<lambda>c. \<not> re_special c) (strip x)"

definition entry_prefix :: "str \<Rightarrow> str" where
  "entry_prefix x = (if last (strip x) = 47 then butlast (strip x) else strip x)"

definition startswith :: "str \<Rightarrow> str \<Rightarrow> bool" where
  "startswith s p \<longleftrightarrow> take (length p) s = p"

section \<open>Bytes, base64 and UTF-8 (the library calls of \<open>BasicAuth\<close>)\<close>

text \<open>
  A \<open>bytes\<close> value is a list of numbers below 256. The base64 alphabet is the standard one:
  \<open>table_b2a\<close> gives the character of a 6-bit value, \<open>table_a2b\<close> the value of a character.
\<close>

type_synonym bytes = "nat list"

definition table_b2a :: "nat \<Rightarrow> nat" where
  "table_b2a n =
     (if n < 26 then 65 + n
      else if n < 52 then 71 + n
      else if n < 62 then n - 4
      else if n = 62 then 43
      else 47)"

definition table_a2b :: "nat \<Rightarrow> nat option" where
  "table_a2b c =
     (if 65 \<le> c \<and> c \<le> 90 then Some (c - 65)
      else if 97 \<le> c \<and> c \<le> 122 then Some (c - 71)
      else if 48 \<le> c \<and> c \<le> 57 then Some (c + 4)
      else if c = 43 then Some 62
      else if c = 47 then Some 63
      else None)"

text \<open>
  \<open>base64.b64encode\<close>: three bytes become four characters, and a last group of one or two
  bytes is padded with \<open>=\<close> (code point 61). The code under verification never encodes;
  this function states what the token of a well-formed header is.
\<close>

fun b64encode :: "bytes \<Rightarrow> str" where
  "b64encode [] = []"
| "b64encode [a] = [table_b2a (a div 4), table_b2a (a mod 4 * 16), 61, 61]"
| "b64encode [a, b] =
     [table_b2a (a div 4), table_b2a (a mod 4 * 16 + b div 16), table_b2a (b mod 16 * 4), 61]"
| "b64encode (a # b # c # r) =
     table_b2a (a div 4) # table_b2a (a mod 4 * 16 + b div 16) #
     table_b2a (b mod 16 * 4 + c div 64) # table_b2a (c mod 64) # b64encode r"

text \<open>
  \<open>binascii.a2b_base64(data, strict_mode=True)\<close> as CPython 3.11 implements it, which is
  what \<open>base64.b64decode(s, validate=True)\<close> calls. The loop keeps the position in the
  current group of four (\<open>quad_pos\<close>), the bits left over from the previous character
  (\<open>leftchar\<close>), the number of pad characters seen in a row (\<open>pads\<close>) and whether padding has
  begun. Every failure is \<open>binascii.Error\<close>. A byte is assembled from bit fields that do
  not overlap, so the shifts and the bitwise or of the C code are written as
  multiplication and addition, cut to eight bits.
\<close>

fun a2b_loop :: "nat \<Rightarrow> nat \<Rightarrow> nat \<Rightarrow> bool \<Rightarrow> bytes \<Rightarrow> nat list \<Rightarrow> error + bytes" where
  "a2b_loop quad_pos leftchar pads padding_started out [] =
     (if quad_pos \<noteq> 0 then Inl BinasciiError else Inr out)"
| "a2b_loop quad_pos leftchar pads padding_started out (this_ch # rest) =
     (if this_ch = 61 then
        (if 2 \<le> quad_pos \<and> 4 \<le> quad_pos + (pads + 1) then
           (if rest \<noteq> [] then Inl BinasciiError else Inr out)
         else a2b_loop quad_pos leftchar (if 2 \<le> quad_pos then pads + 1 else pads) True out rest)
      else
        (case table_a2b this_ch of
           None \<Rightarrow> Inl BinasciiError
         | Some v \<Rightarrow>
             if padding_started then Inl BinasciiError
             else if quad_pos = 0 then a2b_loop 1 v 0 False out rest
             else if quad_pos = 1 then
               a2b_loop 2 (v mod 16) 0 False (out @ [(leftchar * 4 + v div 16) mod 256]) rest
             else if quad_pos = 2 then
               a2b_loop 3 (v mod 4) 0 False (out @ [(leftchar * 16 + v div 4) mod 256]) rest
             else a2b_loop 0 0 0 False (out @ [(leftchar * 64 + v) mod 256]) rest))"

definition a2b_base64_strict :: "nat list \<Rightarrow> error + bytes" where
  "a2b_base64_strict data =
     (case data of
        [] \<Rightarrow> a2b_loop 0 0 0 False [] data
      | c # _ \<Rightarrow> if c = 61 then Inl BinasciiError else a2b_loop 0 0 0 False [] data)"

text \<open>
  \<open>base64.b64decode(s, validate=True)\<close> on a \<open>str\<close>: the argument is first encoded as ASCII,
  and a character outside ASCII raises \<open>ValueError\<close> (not \<open>binascii.Error\<close>).
\<close>

definition b64decode_validate :: "str \<Rightarrow> error + bytes" where
  "b64decode_validate s =
     (if list_all (\<lambda>c. c < 128) s then a2b_base64_strict s else Inl ValueError)"

text \<open>
  \<open>bytes.decode('utf-8')\<close>, strict: overlong forms, surrogates, code points above U+10FFFF
  and truncated sequences raise \<open>UnicodeDecodeError\<close>. \<open>need\<close> counts the continuation bytes
  still expected, \<open>cp\<close> holds the bits read so far, and the next byte must lie in
  \<open>lo..hi\<close>.
\<close>

fun utf8_loop :: "nat \<Rightarrow> nat \<Rightarrow> nat \<Rightarrow> nat \<Rightarrow> bytes \<Rightarrow> error + str" where
  "utf8_loop need cp lo hi [] = (if need = 0 then Inr [] else Inl UnicodeDecodeError)"
| "utf8_loop need cp lo hi (b # bs) =
     (if need = 0 then
        (if b < 128 then map_sum id ((#) b) (utf8_loop 0 0 128 191 bs)
         else if 194 \<le> b \<and> b \<le> 223 then utf8_loop 1 (b - 192) 128 191 bs
         else if b = 224 then utf8_loop 2 0 160 191 bs
         else if b = 237 then utf8_loop 2 13 128 159 bs
         else if 225 \<le> b \<and> b \<le> 239 then utf8_loop 2 (b - 224) 128 191 bs
         else if b = 240 then utf8_loop 3 0 144 191 bs
         else if 241 \<le> b \<and> b \<le> 243 then utf8_loop 3 (b - 240) 128 191 bs
         else if b = 244 then utf8_loop 3 4 128 143 bs
         else Inl UnicodeDecodeError)
      else if lo \<le> b \<and> b \<le> hi then
        (if need = 1 then
           map_sum id ((#) (cp * 64 + (b - 128))) (utf8_loop 0 0 128 191 bs)
         else utf8_loop (need - 1) (cp * 64 + (b - 128)) 128 191 bs)
      else Inl UnicodeDecodeError)"

definition utf8_decode :: "bytes \<Rightarrow> error + str" where
  "utf8_decode bs = utf8_loop 0 0 128 191 bs"

text \<open>
  \<open>str.encode('utf-8')\<close>, for the code points that have an encoding (the Unicode scalar
  values: everything up to U+10FFFF but the surrogates). Used to state the round trip.
\<close>

definition unicode_scalar :: "nat \<Rightarrow> bool" where
  "unicode_scalar c \<longleftrightarrow> c < 55296 \<or> (57344 \<le> c \<and> c < 1114112)"

definition utf8_encode_cp :: "nat \<Rightarrow> bytes" where
  "utf8_encode_cp c =
     (if c < 128 then [c]
      else if c < 2048 then [192 + c div 64, 128 + c mod 64]
      else if c < 65536 then [224 + c div 4096, 128 + c div 64 mod 64, 128 + c mod 64]
      else [240 + c div 262144, 128 + c div 4096 mod 64, 128 + c div 64 mod 64, 128 + c mod 64])"

definition utf8_encode :: "str \<Rightarrow> bytes" where
  "utf8_encode s = concat (map utf8_encode_cp s)"

section \<open>\<open>BasicAuth\<close>\<close>

text \<open>
  An argument that may be \<open>None\<close> is an option; a method that returns \<open>None\<close> or a value
  returns an option. The request carries its headers and cookies as maps.
\<close>

record request =
  headers :: "str \<rightharpoonup> str"
  cookies :: "str \<rightharpoonup> str"

definition authorization_header :: "request option \<Rightarrow> str option" where
  "authorization_header req =
     (case req of
        None \<Rightarrow> None
      | Some r \<Rightarrow> headers r (str ''Authorization''))"

text \<open>The pattern \<open>Basic (?P<token>.+)\<close>: six literal characters, then the token.\<close>

definition basic_pattern :: "re_item list" where
  "basic_pattern = map (\<lambda>c. One (Lit c)) (str ''Basic '') @ [Plus AnyChar]"

definition extract_base64_authorization_header :: "str option \<Rightarrow> str option" where
  "extract_base64_authorization_header auth_header =
     (case auth_header of
        None \<Rightarrow> None
      | Some h \<Rightarrow>
          (case re_run True basic_pattern (strip h) of
             None \<Rightarrow> None
           | Some groups \<Rightarrow> Some (groups ! 6)))"

text \<open>
  The \<open>try\<close> block catches \<open>binascii.Error\<close> and \<open>UnicodeDecodeError\<close> and nothing else.
\<close>

definition decode_caught :: "error \<Rightarrow> bool" where
  "decode_caught e \<longleftrightarrow> e = BinasciiError \<or> e = UnicodeDecodeError"

definition decode_base64_authorization_header :: "str option \<Rightarrow> error + str option" where
  "decode_base64_authorization_header base64_authorization_header =
     (case base64_authorization_header of
        None \<Rightarrow> Inr None
      | Some t \<Rightarrow>
          (case b64decode_validate t of
             Inl e \<Rightarrow> if decode_caught e then Inr None else Inl e
           | Inr res \<Rightarrow>
               (case utf8_decode res of
                  Inl e \<Rightarrow> if decode_caught e then Inr None else Inl e
                | Inr s \<Rightarrow> Inr (Some s))))"

text \<open>The pattern \<open>(?P<user>[^:]+):(?P<password>.+)\<close>; the colon is code point 58.\<close>

definition credentials_pattern :: "re_item list" where
  "credentials_pattern = [Plus (NotChar 58), One (Lit 58), Plus AnyChar]"

definition extract_user_credentials :: "str option \<Rightarrow> str option \<times> str option" where
  "extract_user_credentials decoded_base64_authorization_header =
     (case decoded_base64_authorization_header of
        None \<Rightarrow> (None, None)
      | Some d \<Rightarrow>
          (case re_run True credentials_pattern (strip d) of
             None \<Rightarrow> (None, None)
           | Some groups \<Rightarrow> (Some (groups ! 0), Some (groups ! 2))))"

text \<open>
  \<open>User.search\<close> and \<open>is_valid_password\<close> belong to the user model, which the
  authentication classes only call: they are parameters. A search that raises is
  \<open>Inl\<close>.
\<close>

definition user_object_from_credentials ::
  "(str \<Rightarrow> error + 'user list) \<Rightarrow> ('user \<Rightarrow> str \<Rightarrow> bool) \<Rightarrow>
   str option \<Rightarrow> str option \<Rightarrow> 'user option" where
  "user_object_from_credentials search is_valid_password user_email user_pwd =
     (case user_email of
        None \<Rightarrow> None
      | Some email \<Rightarrow>
          (case user_pwd of
             None \<Rightarrow> None
           | Some pwd \<Rightarrow>
               (case search email of
                  Inl e \<Rightarrow> None
                | Inr users \<Rightarrow>
                    (case users of
                       [] \<Rightarrow> None
                     | u # rest \<Rightarrow> if is_valid_password u pwd then Some u else None))))"

definition current_user ::
  "(str \<Rightarrow> error + 'user list) \<Rightarrow> ('user \<Rightarrow> str \<Rightarrow> bool) \<Rightarrow>
   request option \<Rightarrow> error + 'user option" where
  "current_user search is_valid_password req =
     (let auth_header = authorization_header req;
          b64_auth_token = extract_base64_authorization_header auth_header
      in case decode_base64_authorization_header b64_auth_token of
           Inl e \<Rightarrow> Inl e
         | Inr auth_token \<Rightarrow>
             (case extract_user_credentials auth_token of
                (email, password) \<Rightarrow>
                  Inr (user_object_from_credentials search is_valid_password email password)))"

section \<open>Sessions with expiry\<close>

text \<open>
  A \<open>datetime\<close> is the number of microseconds since 0001-01-01 00:00:00, up to
  9999-12-31 23:59:59.999999. \<open>timedelta(seconds=n)\<close> raises \<open>OverflowError\<close> when it spans
  more than 999999999 days, and so does an addition that leaves the range of \<open>datetime\<close>.
\<close>

type_synonym datetime = int

definition datetime_max :: datetime where
  "datetime_max = 3652059 * 86400 * 1000000 - 1"

definition timedelta_seconds :: "int \<Rightarrow> error + int" where
  "timedelta_seconds n =
     (if n div 86400 < - 999999999 \<or> 999999999 < n div 86400 then Inl OverflowError
      else Inr (n * 1000000))"

definition datetime_add :: "datetime \<Rightarrow> int \<Rightarrow> error + datetime" where
  "datetime_add t d =
     (if t + d < 0 \<or> datetime_max < t + d then Inl OverflowError else Inr (t + d))"

text \<open>
  \<open>SessionExpAuth\<close> keeps, for each session id, a dictionary with the keys \<open>user_id\<close> and
  \<open>created_at\<close>; the method tests whether \<open>created_at\<close> is there. The clock
  (\<open>datetime.now()\<close>) is an argument.
\<close>

record 'u session_dict =
  user_id :: 'u
  created_at :: "datetime option"

definition SessionExpAuth_user_id_for_session_id ::
  "(str \<rightharpoonup> 'u session_dict) \<Rightarrow> int \<Rightarrow> datetime \<Rightarrow> str option \<Rightarrow> error + 'u option" where
  "SessionExpAuth_user_id_for_session_id user_id_by_session_id session_duration now session_id =
     (case session_id of
        None \<Rightarrow> Inr None
      | Some sid \<Rightarrow>
          (case user_id_by_session_id sid of
             None \<Rightarrow> Inr None
           | Some dict \<Rightarrow>
               if session_duration \<le> 0 then Inr (Some (user_id dict))
               else
                 (case created_at dict of
                    None \<Rightarrow> Inr None
                  | Some created \<Rightarrow>
                      (case timedelta_seconds session_duration of
                         Inl e \<Rightarrow> Inl e
                       | Inr time_span \<Rightarrow>
                           (case datetime_add created time_span of
                              Inl e \<Rightarrow> Inl e
                            | Inr exp_time \<Rightarrow>
                                if exp_time < now then Inr None
                                else Inr (Some (user_id dict)))))))"

text \<open>
  \<open>SessionDBAuth\<close> reads the sessions from the \<open>UserSession\<close> model, of which the method
  uses the attributes \<open>user_id\<close> and \<open>created_at\<close>; \<open>UserSession.search\<close> is a parameter.
\<close>

record 'u user_session =
  us_user_id :: 'u
  us_session_id :: str
  us_created_at :: datetime

definition SessionDBAuth_user_id_for_session_id ::
  "(str option \<Rightarrow> error + 'u user_session list) \<Rightarrow> int \<Rightarrow> datetime \<Rightarrow> str option \<Rightarrow>
   error + 'u option" where
  "SessionDBAuth_user_id_for_session_id search session_duration now session_id =
     (case search session_id of
        Inl e \<Rightarrow> Inr None
      | Inr sessions \<Rightarrow>
          (case sessions of
             [] \<Rightarrow> Inr None
           | s # rest \<Rightarrow>
               (case timedelta_seconds session_duration of
                  Inl e \<Rightarrow> Inl e
                | Inr time_span \<Rightarrow>
                    (case datetime_add (us_created_at s) time_span of
                       Inl e \<Rightarrow> Inl e
                     | Inr exp_time \<Rightarrow>
                         if exp_time < now then Inr None
                         else Inr (Some (us_user_id s))))))"

section \<open>Facts about the matcher\<close>

lemma re_run_star_end: "re_run False [Star a] s \<noteq> None"
  by (induction s) (auto split: option.splits list.splits)

lemma re_run_literal_prefix:
  "re_run False (map (\<lambda>c. One (Lit c)) l @ [Star a]) (l @ rest) \<noteq> None"
  by (induction l) (auto simp: re_run_star_end)

lemma re_compile_literal_slash:
  "list_all (\<lambda>c. \<not> re_special c) l \<Longrightarrow>
   re_compile (l @ [47, 42]) = Inr (map (\<lambda>c. One (Lit c)) l @ [Star (Lit 47)])"
proof (induction l)
  case Nil
  show ?case by (simp add: re_special_def re_atom_of_def)
next
  case (Cons c l)
  then have c: "\<not> re_special c" and l: "list_all (\<lambda>c. \<not> re_special c) l" by simp_all
  from c have c42: "c \<noteq> 42" and c46: "c \<noteq> 46" by (auto simp: re_special_def)
  show ?case
  proof (cases l)
    case Nil
    then show ?thesis using c c42 c46 by (simp add: re_special_def re_atom_of_def)
  next
    case (Cons q l')
    with l have "q \<noteq> 42" by (auto simp: re_special_def)
    with Cons Cons.IH[OF l] c c42 c46 show ?thesis by (simp add: re_atom_of_def)
  qed
qed

lemma re_compile_not_IndexError: "re_compile p \<noteq> Inl IndexError"
  by (induction p rule: re_compile.induct) (auto split: sum.splits)

section \<open>Facts about the loop of \<open>require_auth\<close>\<close>

lemma exclusion_matches_IndexError:
  "exclusion_matches x path = Inl IndexError \<longleftrightarrow> strip x = []"
  using re_compile_not_IndexError
  by (auto simp: exclusion_matches_def re_match_def Let_def split: sum.splits)

lemma require_auth_loop_first_match:
  "\<forall>y\<in>set pre. \<exists>b. exclusion_matches y path = Inr b \<Longrightarrow>
   exclusion_matches x path = Inr True \<Longrightarrow>
   require_auth_loop path (pre @ x # post) = Inr False"
  by (induction pre) (auto split: sum.splits bool.splits)

lemma require_auth_loop_first_raise:
  "\<forall>y\<in>set pre. exclusion_matches y path = Inr False \<Longrightarrow>
   exclusion_matches x path = Inl e \<Longrightarrow>
   require_auth_loop path (pre @ x # post) = Inl e"
  by (induction pre) (auto split: sum.splits bool.splits)

lemma require_auth_loop_IndexError:
  "require_auth_loop path xs = Inl IndexError \<Longrightarrow> \<exists>x\<in>set xs. strip x = []"
  by (induction xs) (auto simp: exclusion_matches_IndexError split: sum.splits bool.splits)

lemma literal_matches_itself:
  assumes ne: "strip e \<noteq> []"
    and lit: "list_all (\<lambda>c. \<not> re_special c) (strip e)"
    and sl: "last (strip e) \<noteq> 47"
  shows "exclusion_matches e (strip e @ rest) = Inr True"
proof -
  from ne lit have "\<not> re_special (last (strip e))"
    by (metis last_in_set list_all_iff)
  then have st: "last (strip e) \<noteq> 42" by (auto simp: re_special_def)
  have "re_match (strip e @ [47, 42]) (strip e @ rest) = Inr True"
    by (simp add: re_match_def re_compile_literal_slash [OF lit] re_run_literal_prefix)
  with ne st sl show ?thesis
    by (simp add: exclusion_matches_def Let_def str_def)
qed

lemma re_run_literal_star_iff:
  "re_run False (map (\<lambda>c. One (Lit c)) l @ [Star a]) s \<noteq> None \<longleftrightarrow> take (length l) s = l"
proof (induction l arbitrary: s)
  case Nil
  show ?case by (simp add: re_run_star_end)
next
  case (Cons c l)
  show ?case
  proof (cases s)
    case Nil
    then show ?thesis by simp
  next
    case (Cons d s')
    with Cons.IH [of s'] show ?thesis by auto
  qed
qed

lemma literal_entry_matches:
  assumes "literal_entry x"
  shows "exclusion_matches x path = Inr (startswith path (entry_prefix x))"
proof -
  from assms have ne: "strip x \<noteq> []" and lit: "list_all (\<lambda>c. \<not> re_special c) (strip x)"
    by (simp_all add: literal_entry_def)
  from ne lit have "\<not> re_special (last (strip x))"
    by (metis last_in_set list_all_iff)
  then have st: "last (strip x) \<noteq> 42" by (auto simp: re_special_def)
  have pl: "list_all (\<lambda>c. \<not> re_special c) (entry_prefix x)"
    using lit by (auto simp: entry_prefix_def list_all_iff dest: in_set_butlastD)
  have "exclusion_matches x path = re_match (entry_prefix x @ [47, 42]) path"
    using ne st by (simp add: exclusion_matches_def entry_prefix_def Let_def str_def)
  also have "\<dots> = Inr (startswith path (entry_prefix x))"
    using re_run_literal_star_iff [of "entry_prefix x" "Lit 47" path]
    by (simp add: re_match_def re_compile_literal_slash [OF pl] startswith_def)
  finally show ?thesis .
qed

section \<open>Path exclusion: the claims\<close>

text \<open>
  C1 asks that, under the exclusion \<open>/api/v1/status/\<close>, the paths \<open>/api/v1/status/\<close>
  and \<open>/api/v1/status/anything\<close> be excluded and that \<open>/api/v1/statuses\<close> still require
  authentication. The pattern built for the entry is \<open>/api/v1/status/*\<close>, whose slashes
  are optional, and \<open>re.match\<close> does not anchor the end of the match: with that entry
  alone in the list, \<open>require_auth\<close> returns false for all three paths,
  \<open>/api/v1/statuses\<close> included.
\<close>

theorem C1_statuses_is_excluded:
  "require_auth (Some (str ''/api/v1/status/'')) (Some [str ''/api/v1/status/'']) = Inr False \<and>
   require_auth (Some (str ''/api/v1/status/anything'')) (Some [str ''/api/v1/status/''])
     = Inr False \<and>
   require_auth (Some (str ''/api/v1/statuses'')) (Some [str ''/api/v1/status/'']) = Inr False"
  by (simp add: require_auth_def exclusion_matches_def str_def strip_def isspace_def
      re_match_def re_special_def re_atom_of_def)

text \<open>
  C2, as stated, says that a path equal to an exclusion without trailing \<open>*\<close> or \<open>/\<close>
  still requires authentication. It does not: the slashes after the entry are optional
  in the pattern.
\<close>

theorem C2_counterexample:
  "require_auth (Some (str ''/api/v1/status'')) (Some [str ''/api/v1/status'']) = Inr False"
  by (simp add: require_auth_def exclusion_matches_def str_def strip_def isspace_def
      re_match_def re_special_def re_atom_of_def)

text \<open>
  C2 (amended). For every exclusion that, once stripped, is not empty, consists of
  literal characters only (no character that is special in a regular expression, so it
  does not end in \<open>*\<close>) and does not end in \<open>/\<close>, \<open>require_auth\<close> applied to a path
  equal to the exclusion returns false: the exact path is excluded, as are the paths
  that begin with the exclusion and a slash.
\<close>

theorem C2_exact_path_is_excluded:
  assumes "strip e \<noteq> []"
    and "list_all (\<lambda>c. \<not> re_special c) (strip e)"
    and "last (strip e) \<noteq> 47"
  shows "require_auth (Some (strip e)) (Some (e # xs)) = Inr False \<and>
         require_auth (Some (strip e @ 47 # sub)) (Some (e # xs)) = Inr False"
  using literal_matches_itself [OF assms, of "[]"] literal_matches_itself [OF assms, of "47 # sub"]
  by (simp add: require_auth_def)

lemma strip_users: "strip (str ''/api/v1/users'') = str ''/api/v1/users''"
  by (simp add: str_def strip_def isspace_def)

theorem C2_witness:
  "strip (str ''/api/v1/users'') \<noteq> [] \<and>
   list_all (\<lambda>c. \<not> re_special c) (strip (str ''/api/v1/users'')) \<and>
   last (strip (str ''/api/v1/users'')) \<noteq> 47 \<and>
   require_auth (Some (str ''/api/v1/users'')) (Some [str ''/api/v1/users'']) = Inr False \<and>
   require_auth (Some (str ''/api/v1/users'' @ 47 # str ''me'')) (Some [str ''/api/v1/users''])
     = Inr False"
proof -
  have a: "strip (str ''/api/v1/users'') \<noteq> []"
    by (simp add: strip_users) (simp add: str_def)
  have b: "list_all (\<lambda>c. \<not> re_special c) (strip (str ''/api/v1/users''))"
    by (simp add: strip_users) (simp add: str_def re_special_def)
  have c: "last (strip (str ''/api/v1/users'')) \<noteq> 47"
    by (simp add: strip_users) (simp add: str_def)
  show ?thesis
    using a b c C2_exact_path_is_excluded [OF a b c, of "[]" "str ''me''"]
    by (simp add: strip_users)
qed

text \<open>
  C9, as stated, says that an empty or whitespace-only entry makes \<open>require_auth\<close> raise
  \<open>IndexError\<close> whatever the path. The loop returns at the first entry that matches, so
  an empty entry behind a matching one is never read.
\<close>

theorem C9_counterexample:
  "require_auth (Some (str ''/api/v1/status/'')) (Some [str ''/api/v1/status/'', str '''', str '' ''])
     = Inr False"
  by (simp add: require_auth_def exclusion_matches_def str_def strip_def isspace_def
      re_match_def re_special_def re_atom_of_def)

text \<open>
  C9 (amended). \<open>require_auth\<close> raises \<open>IndexError\<close> when the loop reaches an entry that
  is empty after stripping: that is, when the path is given and every entry before
  that one is a literal entry the path does not begin with (its trailing slash left
  off). When, behind such entries, a literal entry equals the path, with or without
  the trailing slash, the result is false whatever follows it in the list, empty
  entries included. A list whose entries are all non-empty after stripping never
  raises \<open>IndexError\<close>, and without a path the result is true whatever the list holds.
\<close>

theorem C9_IndexError_only_when_reached:
  "(strip e = [] \<and>
    (\<forall>y\<in>set pre. literal_entry y \<and> \<not> startswith path (entry_prefix y)) \<longrightarrow>
      require_auth (Some path) (Some (pre @ e # post)) = Inl IndexError) \<and>
   ((\<forall>y\<in>set pre. literal_entry y \<and> \<not> startswith path (entry_prefix y)) \<and>
    literal_entry x \<and> (path = entry_prefix x \<or> path = entry_prefix x @ [47]) \<longrightarrow>
      require_auth (Some path) (Some (pre @ x # post)) = Inr False) \<and>
   ((\<forall>x\<in>set xs. strip x \<noteq> []) \<longrightarrow> require_auth p (Some xs) \<noteq> Inl IndexError) \<and>
   require_auth None (Some xs) = Inr True"
proof (intro conjI impI)
  assume a: "strip e = [] \<and>
    (\<forall>y\<in>set pre. literal_entry y \<and> \<not> startswith path (entry_prefix y))"
  then have n: "\<forall>y\<in>set pre. exclusion_matches y path = Inr False"
    by (simp add: literal_entry_matches)
  from a have "exclusion_matches e path = Inl IndexError"
    by (simp add: exclusion_matches_IndexError)
  with n show "require_auth (Some path) (Some (pre @ e # post)) = Inl IndexError"
    by (simp add: require_auth_def require_auth_loop_first_raise)
next
  assume a: "(\<forall>y\<in>set pre. literal_entry y \<and> \<not> startswith path (entry_prefix y)) \<and>
    literal_entry x \<and> (path = entry_prefix x \<or> path = entry_prefix x @ [47])"
  then have n: "\<forall>y\<in>set pre. \<exists>b. exclusion_matches y path = Inr b"
    by (auto simp: literal_entry_matches)
  from a have "startswith path (entry_prefix x)"
    by (auto simp: startswith_def)
  with a have "exclusion_matches x path = Inr True"
    by (simp add: literal_entry_matches)
  with n show "require_auth (Some path) (Some (pre @ x # post)) = Inr False"
    by (simp add: require_auth_def require_auth_loop_first_match)
next
  assume "\<forall>x\<in>set xs. strip x \<noteq> []"
  then show "require_auth p (Some xs) \<noteq> Inl IndexError"
    using require_auth_loop_IndexError [of _ xs]
    by (auto simp: require_auth_def split: option.splits)
next
  show "require_auth None (Some xs) = Inr True"
    by (simp add: require_auth_def)
qed

lemma strip_examples:
  "strip (str '' '') = []"
  "strip (str ''/api/v1/users/'') = str ''/api/v1/users/''"
  "strip (str ''/api/v1/status/'') = str ''/api/v1/status/''"
  by (simp_all add: str_def strip_def isspace_def)

theorem C9_witness:
  "strip (str '' '') = [] \<and>
   literal_entry (str ''/api/v1/users/'') \<and>
   \<not> startswith (str ''/api/v1/status'') (entry_prefix (str ''/api/v1/users/'')) \<and>
   require_auth (Some (str ''/api/v1/status''))
     (Some ([str ''/api/v1/users/''] @ str '' '' # [str ''/api/v1/status/''])) = Inl IndexError \<and>
   literal_entry (str ''/api/v1/status/'') \<and>
   str ''/api/v1/status'' = entry_prefix (str ''/api/v1/status/'') \<and>
   require_auth (Some (str ''/api/v1/status''))
     (Some ([str ''/api/v1/users/''] @ str ''/api/v1/status/'' # [str '' ''])) = Inr False \<and>
   strip (str ''/api/v1/users/'') \<noteq> [] \<and>
   require_auth (Some (str ''/api/v1/status'')) (Some [str ''/api/v1/users/'']) \<noteq> Inl IndexError"
proof -
  have a: "strip (str '' '') = []" by (rule strip_examples)
  have b: "literal_entry (str ''/api/v1/users/'')" "literal_entry (str ''/api/v1/status/'')"
    by (simp_all add: literal_entry_def strip_examples) (simp_all add: str_def re_special_def)
  have c: "\<not> startswith (str ''/api/v1/status'') (entry_prefix (str ''/api/v1/users/''))"
    by (simp add: startswith_def entry_prefix_def strip_examples) (simp add: str_def)
  have d: "str ''/api/v1/status'' = entry_prefix (str ''/api/v1/status/'')"
    by (simp add: entry_prefix_def strip_examples) (simp add: str_def)
  have f: "strip (str ''/api/v1/users/'') \<noteq> []"
    by (simp add: strip_examples) (simp add: str_def)
  have g: "\<forall>y\<in>set [str ''/api/v1/users/''].
      literal_entry y \<and> \<not> startswith (str ''/api/v1/status'') (entry_prefix y)"
    using b c by simp
  have h: "\<forall>x\<in>set [str ''/api/v1/users/'']. strip x \<noteq> []"
    using f by simp
  note t1 = C9_IndexError_only_when_reached [of "str '' ''" "[str ''/api/v1/users/'']"
        "str ''/api/v1/status''" "[str ''/api/v1/status/'']" "str ''/api/v1/status/''"
        "[str ''/api/v1/users/'']" "Some (str ''/api/v1/status'')"]
  note t2 = C9_IndexError_only_when_reached [of "str '' ''" "[str ''/api/v1/users/'']"
        "str ''/api/v1/status''" "[str '' '']" "str ''/api/v1/status/''"
        "[str ''/api/v1/users/'']" "Some (str ''/api/v1/status'')"]
  show ?thesis
    using a b c d f g h t1 t2 by blast
qed

section \<open>Session expiry: the claims\<close>

text \<open>
  What the two classes do. \<open>SessionExpAuth\<close> returns the user id at once when the
  duration is zero or negative, and otherwise keeps the session until
  \<open>created_at + session_duration\<close> has passed. \<open>SessionDBAuth\<close> has the same arithmetic
  but not the test on the duration: it agrees with \<open>SessionExpAuth\<close> for a positive
  duration, and with a duration of zero or less it reports every session as expired as
  soon as the clock has moved past \<open>created_at\<close>.
\<close>

lemma SessionExpAuth_never_expires:
  "session_duration \<le> 0 \<Longrightarrow> store sid = Some dict \<Longrightarrow>
   SessionExpAuth_user_id_for_session_id store session_duration now (Some sid)
     = Inr (Some (user_id dict))"
  by (simp add: SessionExpAuth_user_id_for_session_id_def)

lemma SessionExpAuth_positive_duration:
  assumes "0 < session_duration" and "session_duration \<le> 86400 * 999999999"
    and "store sid = Some \<lparr>user_id = u, created_at = Some created\<rparr>"
    and "0 \<le> created + session_duration * 1000000"
    and "created + session_duration * 1000000 \<le> datetime_max"
  shows "SessionExpAuth_user_id_for_session_id store session_duration now (Some sid)
     = Inr (if created + session_duration * 1000000 < now then None else Some u)"
proof -
  from assms(1,2) have "timedelta_seconds session_duration = Inr (session_duration * 1000000)"
    by (auto simp: timedelta_seconds_def)
  moreover from assms(4,5) have "datetime_add created (session_duration * 1000000)
      = Inr (created + session_duration * 1000000)"
    by (simp add: datetime_add_def)
  ultimately show ?thesis using assms(1,3)
    by (simp add: SessionExpAuth_user_id_for_session_id_def)
qed

lemma SessionDB_agrees_when_positive:
  assumes "0 < session_duration"
    and "store sid = Some \<lparr>user_id = u, created_at = Some created\<rparr>"
    and "search (Some sid) = Inr (\<lparr>us_user_id = u, us_session_id = sid, us_created_at = created\<rparr> # others)"
  shows "SessionDBAuth_user_id_for_session_id search session_duration now (Some sid)
       = SessionExpAuth_user_id_for_session_id store session_duration now (Some sid)"
  using assms
  by (simp add: SessionDBAuth_user_id_for_session_id_def SessionExpAuth_user_id_for_session_id_def
      split: sum.splits)

lemma SessionDB_expired_when_not_positive:
  assumes "session_duration \<le> 0" and "- 86400 * 999999999 \<le> session_duration"
    and "search session_id = Inr (s # others)"
    and "us_created_at s < now" and "0 \<le> us_created_at s + session_duration * 1000000"
    and "us_created_at s \<le> datetime_max"
  shows "SessionDBAuth_user_id_for_session_id search session_duration now session_id = Inr None"
proof -
  from assms(1,2) have "timedelta_seconds session_duration = Inr (session_duration * 1000000)"
    by (auto simp: timedelta_seconds_def)
  moreover from assms(1,5,6) have "datetime_add (us_created_at s) (session_duration * 1000000)
      = Inr (us_created_at s + session_duration * 1000000)"
    by (auto simp: datetime_add_def)
  moreover from assms(1,4) have "us_created_at s + session_duration * 1000000 < now"
    by (smt (verit) mult_nonpos_nonneg)
  ultimately show ?thesis using assms(3)
    by (simp add: SessionDBAuth_user_id_for_session_id_def)
qed

text \<open>
  C3 asks that \<open>SessionDBAuth.user_id_for_session_id\<close> decide as
  \<open>SessionExpAuth.user_id_for_session_id\<close> does on equal stored data, and that both
  return the stored user id when \<open>session_duration \<le> 0\<close>. With a duration of 0, a session
  of user \<open>42\<close> created at some instant and looked up one second later: \<open>SessionExpAuth\<close>
  returns the user id, \<open>SessionDBAuth\<close> returns \<open>None\<close>.
\<close>

theorem C3_db_and_exp_differ_at_duration_zero:
  "SessionExpAuth_user_id_for_session_id
     [str ''s1'' \<mapsto> \<lparr>user_id = str ''42'', created_at = Some 63900000000000000\<rparr>]
     0 63900000001000000 (Some (str ''s1'')) = Inr (Some (str ''42'')) \<and>
   SessionDBAuth_user_id_for_session_id
     (\<lambda>sid. Inr [\<lparr>us_user_id = str ''42'', us_session_id = str ''s1'',
                    us_created_at = 63900000000000000\<rparr>])
     0 63900000001000000 (Some (str ''s1'')) = Inr None"
  by (simp add: SessionExpAuth_user_id_for_session_id_def SessionDBAuth_user_id_for_session_id_def
      timedelta_seconds_def datetime_add_def datetime_max_def)

text \<open>
  C4 asks that a session never expire when the duration is zero or negative, in every
  variant. In \<open>SessionDBAuth\<close> a session looked up one microsecond after its creation
  with duration 0 is gone, and with duration -60 it is gone at the instant of its
  creation.
\<close>

theorem C4_db_session_expires_without_duration:
  "SessionDBAuth_user_id_for_session_id
     (\<lambda>sid. Inr [\<lparr>us_user_id = str ''42'', us_session_id = str ''s1'',
                    us_created_at = 63900000000000000\<rparr>])
     0 63900000000000001 (Some (str ''s1'')) = Inr None \<and>
   SessionDBAuth_user_id_for_session_id
     (\<lambda>sid. Inr [\<lparr>us_user_id = str ''42'', us_session_id = str ''s1'',
                    us_created_at = 63900000000000000\<rparr>])
     (- 60) 63900000000000000 (Some (str ''s1'')) = Inr None"
  by (simp add: SessionDBAuth_user_id_for_session_id_def
      timedelta_seconds_def datetime_add_def datetime_max_def)

section \<open>Lookups\<close>

text \<open>
  C5, as stated, says that a lookup with more than one match gives \<open>None\<close>. The code tests
  only for an empty result and then reads the first element.
\<close>

theorem C5_counterexample:
  "user_object_from_credentials (\<lambda>email. Inr [str ''u1'', str ''u2'']) (\<lambda>u pwd. True)
     (Some (str ''bob@hbtn.io'')) (Some (str ''pwd'')) = Some (str ''u1'')"
  by (simp add: user_object_from_credentials_def)

text \<open>
  C5 (amended). When the user lookup raises or finds nothing,
  \<open>user_object_from_credentials\<close> returns \<open>None\<close>; when it finds one user or more, the first
  one decides: it is returned if the password is valid for it, and \<open>None\<close> is returned
  otherwise. Likewise \<open>SessionDBAuth.user_id_for_session_id\<close> returns \<open>None\<close> when the
  lookup raises or finds no record, and with several records it answers as if the first
  were the only one.
\<close>

theorem C5_first_match_decides:
  "(search email = Inl err \<longrightarrow>
      user_object_from_credentials search is_valid_password (Some email) (Some pwd) = None) \<and>
   (search email = Inr [] \<longrightarrow>
      user_object_from_credentials search is_valid_password (Some email) (Some pwd) = None) \<and>
   (search email = Inr (u # others) \<longrightarrow>
      user_object_from_credentials search is_valid_password (Some email) (Some pwd)
        = (if is_valid_password u pwd then Some u else None)) \<and>
   (db_search session_id = Inl err \<longrightarrow>
      SessionDBAuth_user_id_for_session_id db_search session_duration now session_id = Inr None) \<and>
   (db_search session_id = Inr [] \<longrightarrow>
      SessionDBAuth_user_id_for_session_id db_search session_duration now session_id = Inr None) \<and>
   (db_search session_id = Inr (s # records) \<longrightarrow>
      SessionDBAuth_user_id_for_session_id db_search session_duration now session_id
        = SessionDBAuth_user_id_for_session_id (\<lambda>sid. Inr [s]) session_duration now session_id)"
  by (simp add: user_object_from_credentials_def SessionDBAuth_user_id_for_session_id_def)

theorem C5_witness:
  "user_object_from_credentials (\<lambda>email. Inl StorageError) (\<lambda>u pwd. True)
     (Some (str ''bob@hbtn.io'')) (Some (str ''pwd'')) = (None :: str option) \<and>
   user_object_from_credentials (\<lambda>email. Inr []) (\<lambda>u pwd. True)
     (Some (str ''bob@hbtn.io'')) (Some (str ''pwd'')) = (None :: str option) \<and>
   user_object_from_credentials (\<lambda>email. Inr [str ''u1'', str ''u2'']) (\<lambda>u pwd. u = str ''u2'')
     (Some (str ''bob@hbtn.io'')) (Some (str ''pwd'')) = None \<and>
   SessionDBAuth_user_id_for_session_id (\<lambda>sid. Inl StorageError) 60 63900000000000000
     (Some (str ''s1'')) = (Inr None :: error + str option) \<and>
   SessionDBAuth_user_id_for_session_id (\<lambda>sid. Inr []) 60 63900000000000000
     (Some (str ''s1'')) = (Inr None :: error + str option) \<and>
   SessionDBAuth_user_id_for_session_id
     (\<lambda>sid. Inr [\<lparr>us_user_id = str ''42'', us_session_id = str ''s1'',
                    us_created_at = 63900000000000000\<rparr>,
                  \<lparr>us_user_id = str ''43'', us_session_id = str ''s1'',
                    us_created_at = 63900000100000000\<rparr>])
     60 63900000070000000 (Some (str ''s1'')) = Inr None"
proof -
  have db: "SessionDBAuth_user_id_for_session_id
     (\<lambda>sid. Inr [\<lparr>us_user_id = str ''42'', us_session_id = str ''s1'',
                    us_created_at = 63900000000000000\<rparr>])
     60 63900000070000000 (Some (str ''s1'')) = Inr None"
    by (simp add: SessionDBAuth_user_id_for_session_id_def timedelta_seconds_def
        datetime_add_def datetime_max_def)
  show ?thesis
    using db
      C5_first_match_decides [of "\<lambda>email. Inl StorageError" "str ''bob@hbtn.io''" StorageError
        "\<lambda>u pwd. True" "str ''pwd''" "[]::nat list" "[]"
        "\<lambda>sid. Inl StorageError" "Some (str ''s1'')" 60 63900000000000000
        "\<lparr>us_user_id = str ''42'', us_session_id = str ''s1'', us_created_at = 0\<rparr>" "[]"]
      C5_first_match_decides [of "\<lambda>email. Inr []" "str ''bob@hbtn.io''" StorageError
        "\<lambda>u pwd. True" "str ''pwd''" "[]::nat list" "[]"
        "\<lambda>sid. Inr []" "Some (str ''s1'')" 60 63900000000000000
        "\<lparr>us_user_id = str ''42'', us_session_id = str ''s1'', us_created_at = 0\<rparr>" "[]"]
      C5_first_match_decides [of "\<lambda>email. Inr [str ''u1'', str ''u2'']" "str ''bob@hbtn.io''"
        StorageError "\<lambda>u pwd. u = str ''u2''" "str ''pwd''" "str ''u1''" "[str ''u2'']"
        "\<lambda>sid. Inr [\<lparr>us_user_id = str ''42'', us_session_id = str ''s1'',
                    us_created_at = 63900000000000000\<rparr>,
                  \<lparr>us_user_id = str ''43'', us_session_id = str ''s1'',
                    us_created_at = 63900000100000000\<rparr>]"
        "Some (str ''s1'')" 60 63900000070000000
        "\<lparr>us_user_id = str ''42'', us_session_id = str ''s1'',
           us_created_at = 63900000000000000\<rparr>"
        "[\<lparr>us_user_id = str ''43'', us_session_id = str ''s1'',
           us_created_at = 63900000100000000\<rparr>]"]
    by (simp add: str_def)
qed

section \<open>Totality of the resolve operations\<close>

text \<open>
  Which exceptions can leave the resolve operations at all: \<open>ValueError\<close> from the
  Basic chain, and \<open>OverflowError\<close> from the session lookups (a duration or an expiry
  date beyond what \<open>timedelta\<close> and \<open>datetime\<close> can hold).
\<close>

lemma a2b_loop_error:
  "a2b_loop quad_pos leftchar pads padding_started out data = Inl e \<Longrightarrow> e = BinasciiError"
  by (induction quad_pos leftchar pads padding_started out data rule: a2b_loop.induct)
    (auto split: if_splits option.splits)

lemma map_sum_id_Inl: "map_sum id f r = Inl e \<Longrightarrow> r = Inl e"
  by (cases r) simp_all

lemma utf8_loop_error:
  "utf8_loop need cp lo hi bs = Inl e \<Longrightarrow> e = UnicodeDecodeError"
  by (induction bs arbitrary: need cp lo hi) (auto split: if_splits dest!: map_sum_id_Inl)

lemma a2b_base64_strict_error: "a2b_base64_strict data = Inl e \<Longrightarrow> e = BinasciiError"
  by (auto simp: a2b_base64_strict_def simp del: a2b_loop.simps
      split: list.splits if_splits dest: a2b_loop_error)

lemma decode_raises_only_ValueError:
  assumes "decode_base64_authorization_header t = Inl e"
  shows "e = ValueError"
proof (cases t)
  case None
  with assms show ?thesis by (simp add: decode_base64_authorization_header_def)
next
  case (Some tok)
  show ?thesis
  proof (cases "b64decode_validate tok")
    case (Inl e')
    then have "e' = ValueError \<or> e' = BinasciiError"
      by (auto simp: b64decode_validate_def split: if_splits dest: a2b_base64_strict_error)
    with assms Some Inl show ?thesis
      by (auto simp: decode_base64_authorization_header_def decode_caught_def split: if_splits)
  next
    case (Inr res)
    show ?thesis
    proof (cases "utf8_decode res")
      case (Inl e')
      then have "e' = UnicodeDecodeError"
        by (auto simp: utf8_decode_def dest: utf8_loop_error)
      with assms Some Inr Inl show ?thesis
        by (simp add: decode_base64_authorization_header_def decode_caught_def)
    next
      case (Inr s)
      with assms Some \<open>b64decode_validate tok = Inr res\<close> show ?thesis
        by (simp add: decode_base64_authorization_header_def)
    qed
  qed
qed

lemma current_user_raises_only_ValueError:
  "current_user search is_valid_password req = Inl e \<Longrightarrow> e = ValueError"
  by (auto simp: current_user_def Let_def split: sum.splits prod.splits
      dest: decode_raises_only_ValueError)

lemma session_lookup_raises_only_OverflowError:
  "SessionExpAuth_user_id_for_session_id store session_duration now session_id = Inl e
     \<Longrightarrow> e = OverflowError"
  "SessionDBAuth_user_id_for_session_id search session_duration now session_id = Inl e
     \<Longrightarrow> e = OverflowError"
  by (auto simp: SessionExpAuth_user_id_for_session_id_def SessionDBAuth_user_id_for_session_id_def
      timedelta_seconds_def datetime_add_def
      split: option.splits sum.splits list.splits if_splits)

text \<open>
  C6 asks that no resolve operation raise. The header \<open>Basic \<close> followed by the character
  U+00E9 passes \<open>extract_base64_authorization_header\<close>; \<open>base64.b64decode\<close> then raises
  \<open>ValueError\<close> for a character outside ASCII, which the \<open>except\<close> clause of
  \<open>decode_base64_authorization_header\<close> does not list, and \<open>current_user\<close> lets it through.
\<close>

theorem C6_current_user_raises_ValueError:
  "current_user search is_valid_password
     (Some \<lparr>headers = [str ''Authorization'' \<mapsto> str ''Basic '' @ [233]], cookies = Map.empty\<rparr>)
     = Inl ValueError"
  by (simp add: current_user_def authorization_header_def decode_base64_authorization_header_def
      b64decode_validate_def decode_caught_def extract_base64_authorization_header_def
      basic_pattern_def strip_def isspace_def str_def)


section \<open>Facts about \<open>strip\<close> and full matches\<close>

lemma strip_keeps_core:
  assumes "list_all isspace ws1" and "list_all isspace ws2"
    and "m \<noteq> []" and "\<not> isspace (hd m)" and "\<not> isspace (last m)"
  shows "strip (ws1 @ m @ ws2) = m"
proof -
  from assms(3,4) obtain a m' where m: "m = a # m'" and a: "\<not> isspace a"
    by (cases m) auto
  from assms(3,5) obtain z m'' where m2: "rev m = z # m''" and z: "\<not> isspace z"
    by (cases "rev m") (auto simp: last_rev [symmetric] hd_rev)
  from assms(1) have "dropWhile isspace (ws1 @ m @ ws2) = m @ ws2"
    using m a by (simp add: dropWhile_append list_all_iff)
  moreover from assms(2) have "dropWhile isspace (rev ws2 @ rev m) = rev m"
    using m2 z by (simp add: dropWhile_append list_all_iff)
  ultimately show ?thesis by (simp add: strip_def)
qed

lemma dropWhile_keeps_suffix:
  assumes "\<not> P y"
  shows "\<exists>zs. dropWhile P (xs @ y # ys) = zs @ y # ys"
proof (induction xs)
  case Nil
  from assms show ?case by (intro exI [of _ "[]"]) simp
next
  case (Cons x xs)
  show ?case
  proof (cases "P x")
    case True
    with Cons show ?thesis by simp
  next
    case False
    then show ?thesis by (intro exI [of _ "x # xs"]) simp
  qed
qed

lemma strip_keeps_head:
  assumes "\<not> isspace a"
  shows "\<exists>r. strip (a # s) = a # r"
proof -
  obtain zs where "dropWhile isspace (rev s @ [a]) = zs @ [a]"
    using assms dropWhile_keeps_suffix [of isspace a "rev s" "[]"] by blast
  then have "strip (a # s) = a # rev zs"
    using assms by (simp add: strip_def)
  then show ?thesis by blast
qed

lemma strip_keeps_two:
  assumes "\<not> isspace a" and "\<not> isspace b"
  shows "\<exists>r. strip (a # b # s) = a # b # r"
proof -
  obtain zs where "dropWhile isspace (rev s @ [b, a]) = zs @ [b, a]"
    using assms dropWhile_keeps_suffix [of isspace b "rev s" "[a]"] by blast
  then have "strip (a # b # s) = a # b # rev zs"
    using assms by (simp add: strip_def)
  then show ?thesis by blast
qed

lemma full_star_any:
  "re_run True [Star AnyChar] s = (if 10 \<in> set s then None else Some [s])"
  by (induction s) (auto split: option.splits list.splits)

lemma full_plus_any:
  "re_run True [Plus AnyChar] s = (if s \<noteq> [] \<and> 10 \<notin> set s then Some [s] else None)"
  by (cases s) (auto simp: full_star_any split: option.splits list.splits)

lemma full_star_upto_colon:
  "58 \<notin> set u \<Longrightarrow>
   re_run True (Star (NotChar 58) # One (Lit 58) # r) (u @ 58 # p)
     = map_option (\<lambda>gs. u # [58] # gs) (re_run True r p)"
proof (induction u)
  case Nil
  show ?case by (simp add: option.map_comp comp_def)
next
  case (Cons c u)
  then show ?case by (cases "re_run True r p") auto
qed

lemma full_star_no_colon:
  "58 \<notin> set s \<Longrightarrow> re_run True (Star (NotChar 58) # One (Lit 58) # r) s = None"
  by (induction s) auto

lemma credentials_split:
  assumes "58 \<notin> set u"
  shows "re_run True credentials_pattern (u @ 58 # p)
     = (if u \<noteq> [] \<and> p \<noteq> [] \<and> 10 \<notin> set p then Some [u, [58], p] else None)"
proof (cases u)
  case Nil
  then show ?thesis by (simp add: credentials_pattern_def)
next
  case (Cons c u')
  with assms have c: "c \<noteq> 58" and u': "58 \<notin> set u'" by auto
  show ?thesis
    using Cons c full_star_upto_colon [OF u', of "[Plus AnyChar]" p]
    by (simp add: credentials_pattern_def full_plus_any)
qed

lemma credentials_no_colon:
  assumes "58 \<notin> set s"
  shows "re_run True credentials_pattern s = None"
proof (cases s)
  case Nil
  then show ?thesis by (simp add: credentials_pattern_def)
next
  case (Cons c s')
  with assms have "58 \<notin> set s'" by auto
  from full_star_no_colon [OF this, of "[Plus AnyChar]"] Cons show ?thesis
    by (simp add: credentials_pattern_def)
qed

lemma basic_token:
  "re_run True basic_pattern (str ''Basic '' @ t)
     = (if t \<noteq> [] \<and> 10 \<notin> set t then
          Some [[66], [97], [115], [105], [99], [32], t]
        else None)"
  by (simp add: basic_pattern_def str_def full_plus_any)

section \<open>The library models on known values\<close>

text \<open>
  The values CPython 3.11 gives for \<open>base64.b64decode(s, validate=True)\<close>,
  \<open>base64.b64encode\<close>, \<open>bytes.decode('utf-8')\<close> and \<open>str.encode('utf-8')\<close> on a few
  inputs, among them its accepting \<open>QUJD=\<close> and non-zero trailing bits (\<open>QR==\<close>).
\<close>

lemma library_examples:
  "b64decode_validate (str ''QUJD'') = Inr (str ''ABC'')"
  "b64decode_validate (str ''QQ=='') = Inr (str ''A'')"
  "b64decode_validate (str ''QR=='') = Inr (str ''A'')"
  "b64decode_validate (str ''/+8='') = Inr [255, 239]"
  "b64decode_validate (str ''QUJD='') = Inr (str ''ABC'')"
  "b64decode_validate (str ''=QUJD'') = Inl BinasciiError"
  "b64decode_validate (str ''QUJ'') = Inl BinasciiError"
  "b64decode_validate (str ''QQ=Q'') = Inl BinasciiError"
  "b64decode_validate (str ''QQ==Q'') = Inl BinasciiError"
  "b64decode_validate (str ''Q Q=='') = Inl BinasciiError"
  "b64decode_validate [233] = Inl ValueError"
  "b64encode [255, 239] = str ''/+8=''"
  "utf8_decode [244, 143, 191, 191] = Inr [1114111]"
  "utf8_decode [239, 191, 191] = Inr [65535]"
  "utf8_decode [192, 128] = Inl UnicodeDecodeError"
  "utf8_decode [237, 160, 128] = Inl UnicodeDecodeError"
  "utf8_decode [244, 144, 128, 128] = Inl UnicodeDecodeError"
  "utf8_decode [224, 159, 191] = Inl UnicodeDecodeError"
  "utf8_decode [194] = Inl UnicodeDecodeError"
  "utf8_encode [233, 8364, 1114111] = [195, 169, 226, 130, 172, 244, 143, 191, 191]"
  by (simp_all add: b64decode_validate_def a2b_base64_strict_def table_a2b_def table_b2a_def
      utf8_decode_def utf8_encode_def utf8_encode_cp_def str_def)

section \<open>Base64: decoding an encoding\<close>

lemma table_a2b_b2a: "n < 64 \<Longrightarrow> table_a2b (table_b2a n) = Some n"
  by (auto simp: table_a2b_def table_b2a_def)

lemma table_b2a_not_pad: "table_b2a n \<noteq> 61"
  by (auto simp: table_b2a_def)

lemma table_b2a_ascii: "table_b2a n < 128"
  by (auto simp: table_b2a_def)

lemma a2b_loop_quad:
  assumes "v0 < 64" "v1 < 64" "v2 < 64" "v3 < 64"
  shows "a2b_loop 0 0 0 False out
           (table_b2a v0 # table_b2a v1 # table_b2a v2 # table_b2a v3 # rest)
       = a2b_loop 0 0 0 False
           (out @ [(v0 * 4 + v1 div 16) mod 256, (v1 mod 16 * 16 + v2 div 4) mod 256,
                   (v2 mod 4 * 64 + v3) mod 256]) rest"
  using assms by (simp add: table_a2b_b2a table_b2a_not_pad)

lemma a2b_loop_last_one:
  assumes "v0 < 64" "v1 < 64"
  shows "a2b_loop 0 0 0 False out [table_b2a v0, table_b2a v1, 61, 61]
       = Inr (out @ [(v0 * 4 + v1 div 16) mod 256])"
  using assms by (simp add: table_a2b_b2a table_b2a_not_pad)

lemma a2b_loop_last_two:
  assumes "v0 < 64" "v1 < 64" "v2 < 64"
  shows "a2b_loop 0 0 0 False out [table_b2a v0, table_b2a v1, table_b2a v2, 61]
       = Inr (out @ [(v0 * 4 + v1 div 16) mod 256, (v1 mod 16 * 16 + v2 div 4) mod 256])"
  using assms by (simp add: table_a2b_b2a table_b2a_not_pad)

lemma split_byte_4: "(a::nat) < 256 \<Longrightarrow> a div 4 < 64 \<and> a mod 4 < 4 \<and> a = a div 4 * 4 + a mod 4"
  by (simp add: less_mult_imp_div_less)

lemma split_byte_16: "(a::nat) < 256 \<Longrightarrow> a div 16 < 16 \<and> a mod 16 < 16 \<and> a = a div 16 * 16 + a mod 16"
  by (simp add: less_mult_imp_div_less)

lemma split_byte_64: "(a::nat) < 256 \<Longrightarrow> a div 64 < 4 \<and> a mod 64 < 64 \<and> a = a div 64 * 64 + a mod 64"
  by (simp add: less_mult_imp_div_less)

lemma sextet_bounds:
  fixes a1 a0 b1 b0 c1 c0 :: nat
  assumes "a0 < 4" "b1 < 16" "b0 < 16" "c1 < 4"
  shows "a0 * 16 + b1 < 64" "b0 * 4 + c1 < 64" "a0 * 16 < 64" "b0 * 4 < 64"
  using assms by simp_all

lemma sextets_to_bytes:
  fixes a1 a0 b1 b0 c1 c0 :: nat
  assumes "a1 < 64" "a0 < 4" "b1 < 16" "b0 < 16" "c1 < 4" "c0 < 64"
  shows "(a1 * 4 + (a0 * 16 + b1) div 16) mod 256 = a1 * 4 + a0"
    "((a0 * 16 + b1) mod 16 * 16 + (b0 * 4 + c1) div 4) mod 256 = b1 * 16 + b0"
    "((b0 * 4 + c1) mod 4 * 64 + c0) mod 256 = c1 * 64 + c0"
    "(a1 * 4 + a0 * 16 div 16) mod 256 = a1 * 4 + a0"
    "((a0 * 16 + b1) mod 16 * 16 + b0 * 4 div 4) mod 256 = b1 * 16 + b0"
  using assms by simp_all

lemma group_of_three:
  fixes a b c :: nat
  assumes a: "a < 256" and b: "b < 256" and c: "c < 256"
  shows "a div 4 < 64" "a mod 4 * 16 + b div 16 < 64" "b mod 16 * 4 + c div 64 < 64"
    "c mod 64 < 64" "a mod 4 * 16 < 64" "b mod 16 * 4 < 64"
    "(a div 4 * 4 + (a mod 4 * 16 + b div 16) div 16) mod 256 = a"
    "((a mod 4 * 16 + b div 16) mod 16 * 16 + (b mod 16 * 4 + c div 64) div 4) mod 256 = b"
    "((b mod 16 * 4 + c div 64) mod 4 * 64 + c mod 64) mod 256 = c"
    "(a div 4 * 4 + a mod 4 * 16 div 16) mod 256 = a"
    "((a mod 4 * 16 + b div 16) mod 16 * 16 + b mod 16 * 4 div 4) mod 256 = b"
proof -
  note sa = split_byte_4 [OF a] and sb = split_byte_16 [OF b] and sc = split_byte_64 [OF c]
  have bd: "a div 4 < 64" "a mod 4 < 4" "b div 16 < 16" "b mod 16 < 16" "c div 64 < 4"
    "c mod 64 < 64"
    using sa sb sc by blast+
  have ea: "a div 4 * 4 + a mod 4 = a" and eb: "b div 16 * 16 + b mod 16 = b"
    and ec: "c div 64 * 64 + c mod 64 = c"
    by (rule div_mult_mod_eq)+
  show "a div 4 < 64" "c mod 64 < 64" by (rule bd)+
  show "a mod 4 * 16 + b div 16 < 64" "b mod 16 * 4 + c div 64 < 64"
    "a mod 4 * 16 < 64" "b mod 16 * 4 < 64"
    by (rule sextet_bounds [OF bd(2) bd(3) bd(4) bd(5)])+
  note sx = sextets_to_bytes [OF bd]
  show "(a div 4 * 4 + (a mod 4 * 16 + b div 16) div 16) mod 256 = a"
    using sx(1) ea by (simp only:)
  show "((a mod 4 * 16 + b div 16) mod 16 * 16 + (b mod 16 * 4 + c div 64) div 4) mod 256 = b"
    using sx(2) eb by (simp only:)
  show "((b mod 16 * 4 + c div 64) mod 4 * 64 + c mod 64) mod 256 = c"
    using sx(3) ec by (simp only:)
  show "(a div 4 * 4 + a mod 4 * 16 div 16) mod 256 = a"
    using sx(4) ea by (simp only:)
  show "((a mod 4 * 16 + b div 16) mod 16 * 16 + b mod 16 * 4 div 4) mod 256 = b"
    using sx(5) eb by (simp only:)
qed

lemma a2b_loop_b64encode:
  "list_all (\<lambda>b. b < 256) bs \<Longrightarrow> a2b_loop 0 0 0 False out (b64encode bs) = Inr (out @ bs)"
proof (induction bs arbitrary: out rule: b64encode.induct)
  case 1
  show ?case by simp
next
  case (2 a)
  then have a: "a < 256" by simp
  note g = group_of_three [OF a a a]
  have "a2b_loop 0 0 0 False out (b64encode [a])
      = Inr (out @ [(a div 4 * 4 + a mod 4 * 16 div 16) mod 256])"
    using a2b_loop_last_one [OF g(1) g(5), of out] by (simp only: b64encode.simps)
  then show ?case by (simp only: g)
next
  case (3 a b)
  then have a: "a < 256" and b: "b < 256" by simp_all
  note g = group_of_three [OF a b b]
  have "a2b_loop 0 0 0 False out (b64encode [a, b])
      = Inr (out @ [(a div 4 * 4 + (a mod 4 * 16 + b div 16) div 16) mod 256,
                    ((a mod 4 * 16 + b div 16) mod 16 * 16 + b mod 16 * 4 div 4) mod 256])"
    using a2b_loop_last_two [OF g(1) g(2) g(6), of out] by (simp only: b64encode.simps)
  then show ?case by (simp only: g)
next
  case (4 a b c r)
  then have a: "a < 256" and b: "b < 256" and c: "c < 256"
    and r: "list_all (\<lambda>b. b < 256) r" by simp_all
  note g = group_of_three [OF a b c]
  have "a2b_loop 0 0 0 False out (b64encode (a # b # c # r))
      = a2b_loop 0 0 0 False
          (out @ [(a div 4 * 4 + (a mod 4 * 16 + b div 16) div 16) mod 256,
                  ((a mod 4 * 16 + b div 16) mod 16 * 16 + (b mod 16 * 4 + c div 64) div 4) mod 256,
                  ((b mod 16 * 4 + c div 64) mod 4 * 64 + c mod 64) mod 256])
          (b64encode r)"
    using a2b_loop_quad [OF g(1) g(2) g(3) g(4), of out "b64encode r"]
    by (simp only: b64encode.simps)
  also have "\<dots> = a2b_loop 0 0 0 False (out @ [a, b, c]) (b64encode r)"
    by (simp only: g)
  also have "\<dots> = Inr ((out @ [a, b, c]) @ r)"
    by (rule "4.IH" [OF r])
  finally show ?case by simp
qed

lemma b64encode_ascii: "list_all (\<lambda>c. c < 128) (b64encode bs)"
  by (induction bs rule: b64encode.induct) (simp_all add: table_b2a_ascii)

lemma b64encode_no_leading_pad: "b64encode bs = [] \<or> (\<exists>n cs. b64encode bs = table_b2a n # cs)"
  by (induction bs rule: b64encode.induct) auto

lemma b64decode_b64encode:
  assumes "list_all (\<lambda>b. b < 256) bs"
  shows "b64decode_validate (b64encode bs) = Inr bs"
proof -
  have "a2b_base64_strict (b64encode bs) = a2b_loop 0 0 0 False [] (b64encode bs)"
    using b64encode_no_leading_pad [of bs]
    by (auto simp: a2b_base64_strict_def table_b2a_not_pad split: list.splits)
  then show ?thesis
    using a2b_loop_b64encode [OF assms, of "[]"]
    by (simp add: b64decode_validate_def b64encode_ascii)
qed

section \<open>UTF-8: decoding an encoding\<close>

lemma utf8_one:
  "c < 128 \<Longrightarrow>
   utf8_loop 0 0 128 191 (c # bs) = map_sum id ((#) c) (utf8_loop 0 0 128 191 bs)"
  by simp

lemma utf8_two:
  "2 \<le> q \<Longrightarrow> q < 32 \<Longrightarrow> r < 64 \<Longrightarrow>
   utf8_loop 0 0 128 191 ((192 + q) # (128 + r) # bs)
     = map_sum id ((#) (q * 64 + r)) (utf8_loop 0 0 128 191 bs)"
  by simp

lemma utf8_three:
  assumes "h < 16" "m < 64" "l < 64"
    and "h = 0 \<Longrightarrow> 32 \<le> m" and "h = 13 \<Longrightarrow> m < 32"
  shows "utf8_loop 0 0 128 191 ((224 + h) # (128 + m) # (128 + l) # bs)
     = map_sum id ((#) ((h * 64 + m) * 64 + l)) (utf8_loop 0 0 128 191 bs)"
proof -
  consider "h = 0" | "h = 13" | "h \<noteq> 0" "h \<noteq> 13" by blast
  then show ?thesis
  proof cases
    case 1
    with assms show ?thesis by simp
  next
    case 2
    with assms show ?thesis by simp
  next
    case 3
    with assms show ?thesis by simp
  qed
qed

lemma utf8_four:
  assumes "h < 5" "m < 64" "n < 64" "l < 64"
    and "h = 0 \<Longrightarrow> 16 \<le> m" and "h = 4 \<Longrightarrow> m < 16"
  shows "utf8_loop 0 0 128 191 ((240 + h) # (128 + m) # (128 + n) # (128 + l) # bs)
     = map_sum id ((#) (((h * 64 + m) * 64 + n) * 64 + l)) (utf8_loop 0 0 128 191 bs)"
proof -
  consider "h = 0" | "h = 4" | "h \<noteq> 0" "h \<noteq> 4" by blast
  then show ?thesis
  proof cases
    case 1
    with assms show ?thesis by simp
  next
    case 2
    with assms show ?thesis by simp
  next
    case 3
    with assms show ?thesis by simp
  qed
qed

lemma digits64_2:
  fixes c :: nat
  shows "c div 64 * 64 + c mod 64 = c"
  by (rule div_mult_mod_eq)

lemma digits64_3:
  fixes c :: nat
  shows "(c div 4096 * 64 + c div 64 mod 64) * 64 + c mod 64 = c"
proof -
  have "c div 4096 = c div 64 div 64" by (simp add: div_mult2_eq)
  then have "c div 4096 * 64 + c div 64 mod 64 = c div 64" by simp
  then show ?thesis by simp
qed

lemma digits64_4:
  fixes c :: nat
  shows "((c div 262144 * 64 + c div 4096 mod 64) * 64 + c div 64 mod 64) * 64 + c mod 64 = c"
proof -
  have "c div 262144 = c div 4096 div 64" by (simp add: div_mult2_eq)
  then have "c div 262144 * 64 + c div 4096 mod 64 = c div 4096" by simp
  then show ?thesis by (simp only: digits64_3)
qed

lemma utf8_encode_cp_decodes:
  assumes "unicode_scalar c"
  shows "utf8_loop 0 0 128 191 (utf8_encode_cp c @ bs)
       = map_sum id ((#) c) (utf8_loop 0 0 128 191 bs)"
proof -
  consider "c < 128" | "128 \<le> c" "c < 2048" | "2048 \<le> c" "c < 65536" | "65536 \<le> c"
    by linarith
  then show ?thesis
  proof cases
    case 1
    then show ?thesis by (simp add: utf8_encode_cp_def)
  next
    case 2
    have q: "2 \<le> c div 64" "c div 64 < 32"
      using 2 div_le_mono [of 128 c 64] by (simp_all add: less_mult_imp_div_less)
    have "utf8_loop 0 0 128 191 ((192 + c div 64) # (128 + c mod 64) # bs)
        = map_sum id ((#) (c div 64 * 64 + c mod 64)) (utf8_loop 0 0 128 191 bs)"
      by (rule utf8_two [OF q]) simp
    moreover have "utf8_encode_cp c = [192 + c div 64, 128 + c mod 64]"
      using 2 by (simp add: utf8_encode_cp_def)
    ultimately show ?thesis by (simp only: digits64_2 append.simps)
  next
    case 3
    have h: "c div 4096 < 16" using 3 by (simp add: less_mult_imp_div_less)
    have m: "c div 64 mod 64 < 64" and l: "c mod 64 < 64" by simp_all
    have lo: "32 \<le> c div 64 mod 64" if "c div 4096 = 0"
    proof -
      from that have "c < 4096" by (simp add: div_eq_0_iff)
      then have "c div 64 < 64" by (simp add: less_mult_imp_div_less)
      moreover from 3 have "32 \<le> c div 64" using div_le_mono [of 2048 c 64] by simp
      ultimately show ?thesis by simp
    qed
    have hi: "c div 64 mod 64 < 32" if "c div 4096 = 13"
    proof -
      have d: "c div 4096 = c div 64 div 64" by (simp add: div_mult2_eq)
      from that have "c < 57344"
        using div_less_iff_less_mult [of 4096 c 14] by simp
      with assms have "c < 55296" by (simp add: unicode_scalar_def)
      then have "c div 64 < 864" by (simp add: less_mult_imp_div_less)
      moreover have "c div 64 = 13 * 64 + c div 64 mod 64"
        using that d div_mult_mod_eq [of "c div 64" 64] by simp
      ultimately show ?thesis by simp
    qed
    have "utf8_loop 0 0 128 191
            ((224 + c div 4096) # (128 + c div 64 mod 64) # (128 + c mod 64) # bs)
        = map_sum id ((#) ((c div 4096 * 64 + c div 64 mod 64) * 64 + c mod 64))
            (utf8_loop 0 0 128 191 bs)"
      by (rule utf8_three [OF h m l lo hi])
    moreover have "utf8_encode_cp c = [224 + c div 4096, 128 + c div 64 mod 64, 128 + c mod 64]"
      using 3 by (simp add: utf8_encode_cp_def)
    ultimately show ?thesis by (simp only: digits64_3 append.simps)
  next
    case 4
    from assms 4 have top: "c < 1114112" by (simp add: unicode_scalar_def)
    have h: "c div 262144 < 5" using top by (simp add: less_mult_imp_div_less)
    have m: "c div 4096 mod 64 < 64" and n: "c div 64 mod 64 < 64" and l: "c mod 64 < 64"
      by simp_all
    have d: "c div 262144 = c div 4096 div 64" by (simp add: div_mult2_eq)
    have lo: "16 \<le> c div 4096 mod 64" if "c div 262144 = 0"
    proof -
      from that have "c < 262144" by (simp add: div_eq_0_iff)
      then have "c div 4096 < 64" by (simp add: less_mult_imp_div_less)
      moreover from 4 have "16 \<le> c div 4096" using div_le_mono [of 65536 c 4096] by simp
      ultimately show ?thesis by simp
    qed
    have hi: "c div 4096 mod 64 < 16" if "c div 262144 = 4"
    proof -
      from top have "c div 4096 < 272" by (simp add: less_mult_imp_div_less)
      moreover have "c div 4096 = 4 * 64 + c div 4096 mod 64"
        using that d div_mult_mod_eq [of "c div 4096" 64] by simp
      ultimately show ?thesis by simp
    qed
    have "utf8_loop 0 0 128 191
            ((240 + c div 262144) # (128 + c div 4096 mod 64) # (128 + c div 64 mod 64) #
             (128 + c mod 64) # bs)
        = map_sum id ((#) (((c div 262144 * 64 + c div 4096 mod 64) * 64 + c div 64 mod 64) * 64
              + c mod 64))
            (utf8_loop 0 0 128 191 bs)"
      by (rule utf8_four [OF h m n l lo hi])
    moreover have "utf8_encode_cp c =
        [240 + c div 262144, 128 + c div 4096 mod 64, 128 + c div 64 mod 64, 128 + c mod 64]"
      using 4 by (simp add: utf8_encode_cp_def)
    ultimately show ?thesis by (simp only: digits64_4 append.simps)
  qed
qed

lemma utf8_decode_utf8_encode:
  "list_all unicode_scalar s \<Longrightarrow> utf8_decode (utf8_encode s) = Inr s"
  unfolding utf8_decode_def utf8_encode_def
  by (induction s) (simp_all add: utf8_encode_cp_decodes)

lemma utf8_encode_cp_bytes:
  assumes "unicode_scalar c"
  shows "list_all (\<lambda>b. b < 256) (utf8_encode_cp c)"
proof -
  from assms have top: "c < 1114112" by (auto simp: unicode_scalar_def)
  have m: "c div 4096 mod 64 < 64" "c div 64 mod 64 < 64" "c mod 64 < 64" by simp_all
  have a: "c < 2048 \<Longrightarrow> c div 64 < 32" by (simp add: less_mult_imp_div_less)
  have b: "c < 65536 \<Longrightarrow> c div 4096 < 16" by (simp add: less_mult_imp_div_less)
  have c: "c div 262144 < 5" using top by (simp add: less_mult_imp_div_less)
  show ?thesis
    using a b c m by (auto simp: utf8_encode_cp_def)
qed

lemma utf8_encode_bytes:
  "list_all unicode_scalar s \<Longrightarrow> list_all (\<lambda>b. b < 256) (utf8_encode s)"
  unfolding utf8_encode_def
  by (induction s) (simp_all add: utf8_encode_cp_bytes)

section \<open>Basic credentials: the claims\<close>

lemma strip_before_colon:
  "strip (u @ [58]) = dropWhile isspace u @ [58]"
proof -
  have c: "\<not> isspace 58" by (simp add: isspace_def)
  have "dropWhile isspace (u @ [58]) = dropWhile isspace u @ [58]"
    using c by (simp add: dropWhile_append)
  with c show ?thesis by (simp add: strip_def)
qed

text \<open>
  C7, as stated, splits every decoded text at its first colon. A text that begins with
  the colon would then give an empty identifier; the pattern asks for at least one
  character on each side and the code returns \<open>(None, None)\<close>.
\<close>

theorem C7_counterexample:
  "extract_user_credentials (Some (str '':b'')) = (None, None)"
  by (simp add: extract_user_credentials_def credentials_pattern_def strip_def isspace_def str_def)

text \<open>
  C7 (amended). \<open>extract_user_credentials\<close> works on the stripped text. Without a colon
  in it the result is \<open>(None, None)\<close>. With a colon, let \<open>u\<close> be what stands before the
  first colon and \<open>p\<close> what stands after it (\<open>p\<close> may contain colons): the result is
  \<open>(u, p)\<close> when both are non-empty and \<open>p\<close> has no newline, and \<open>(None, None)\<close> otherwise.
  So \<open>a:b:c\<close> gives \<open>(a, b:c)\<close> and \<open>noColon\<close> gives \<open>(None, None)\<close>.
\<close>

theorem C7_split_on_first_colon:
  "(58 \<notin> set (strip d) \<longrightarrow> extract_user_credentials (Some d) = (None, None)) \<and>
   (strip d = u @ 58 # p \<and> 58 \<notin> set u \<and> u \<noteq> [] \<and> p \<noteq> [] \<and> 10 \<notin> set p \<longrightarrow>
      extract_user_credentials (Some d) = (Some u, Some p)) \<and>
   (strip d = u @ 58 # p \<and> 58 \<notin> set u \<and> (u = [] \<or> p = [] \<or> 10 \<in> set p) \<longrightarrow>
      extract_user_credentials (Some d) = (None, None))"
  by (auto simp: extract_user_credentials_def credentials_no_colon credentials_split)

theorem C7_witness:
  "58 \<notin> set (strip (str ''noColon'')) \<and>
   extract_user_credentials (Some (str ''noColon'')) = (None, None) \<and>
   strip (str ''a:b:c'') = str ''a'' @ 58 # str ''b:c'' \<and>
   extract_user_credentials (Some (str ''a:b:c'')) = (Some (str ''a''), Some (str ''b:c'')) \<and>
   strip (str ''a:b'' @ [10] @ str ''c'') = str ''a'' @ 58 # (str ''b'' @ [10] @ str ''c'') \<and>
   extract_user_credentials (Some (str ''a:b'' @ [10] @ str ''c'')) = (None, None)"
proof -
  have a: "58 \<notin> set (strip (str ''noColon''))"
    by (simp add: str_def strip_def isspace_def)
  have b: "strip (str ''a:b:c'') = str ''a'' @ 58 # str ''b:c''"
    by (simp add: str_def strip_def isspace_def)
  have b': "58 \<notin> set (str ''a'')" "str ''a'' \<noteq> []" "str ''b:c'' \<noteq> []" "10 \<notin> set (str ''b:c'')"
    by (simp_all add: str_def)
  have c: "strip (str ''a:b'' @ [10] @ str ''c'') = str ''a'' @ 58 # (str ''b'' @ [10] @ str ''c'')"
    by (simp add: str_def strip_def isspace_def)
  have c': "10 \<in> set (str ''b'' @ [10] @ str ''c'')" by simp
  show ?thesis
    using a b b' c c'
      C7_split_on_first_colon [of "str ''noColon''" "[]" "[]"]
      C7_split_on_first_colon [of "str ''a:b:c''" "str ''a''" "str ''b:c''"]
      C7_split_on_first_colon [of "str ''a:b'' @ [10] @ str ''c''" "str ''a''"
        "str ''b'' @ [10] @ str ''c''"]
    by blast
qed

text \<open>
  C10, as stated, says that a decoded text ending with a colon gives \<open>(None, None)\<close>.
  That holds when the final colon is the first one; in \<open>a:b:\<close> it is not, and the
  secret is \<open>b:\<close>.
\<close>

theorem C10_counterexample:
  "extract_user_credentials (Some (str ''a:b:'')) = (Some (str ''a''), Some (str ''b:''))"
  by (simp add: extract_user_credentials_def credentials_pattern_def strip_def isspace_def str_def)

text \<open>
  C10 (amended). A decoded text that begins with a colon (empty identifier) gives
  \<open>(None, None)\<close>; so does a text whose only colon is its last character (empty secret).
  A pair \<open>v:p\<close> surrounded by whitespace is returned without that whitespace, provided
  \<open>v\<close> is not empty, has no colon and does not begin with whitespace, and \<open>p\<close> is not
  empty, has no newline and does not end with whitespace.
\<close>

theorem C10_trimmed_and_both_parts_required:
  "extract_user_credentials (Some (58 # r)) = (None, None) \<and>
   (58 \<notin> set u \<longrightarrow> extract_user_credentials (Some (u @ [58])) = (None, None)) \<and>
   (list_all isspace ws1 \<and> list_all isspace ws2 \<and>
    v \<noteq> [] \<and> 58 \<notin> set v \<and> \<not> isspace (hd v) \<and>
    p \<noteq> [] \<and> 10 \<notin> set p \<and> \<not> isspace (last p) \<longrightarrow>
      extract_user_credentials (Some (ws1 @ (v @ 58 # p) @ ws2)) = (Some v, Some p))"
proof (intro conjI impI)
  have "\<not> isspace 58" by (simp add: isspace_def)
  then obtain r' where "strip (58 # r) = 58 # r'"
    using strip_keeps_head [of 58 r] by blast
  then show "extract_user_credentials (Some (58 # r)) = (None, None)"
    using credentials_split [of "[]" r']
    by (simp add: extract_user_credentials_def)
next
  assume "58 \<notin> set u"
  then have "58 \<notin> set (dropWhile isspace u)"
    by (meson set_dropWhileD)
  then show "extract_user_credentials (Some (u @ [58])) = (None, None)"
    using credentials_split [of "dropWhile isspace u" "[]"]
    by (simp add: extract_user_credentials_def strip_before_colon)
next
  assume a: "list_all isspace ws1 \<and> list_all isspace ws2 \<and>
    v \<noteq> [] \<and> 58 \<notin> set v \<and> \<not> isspace (hd v) \<and>
    p \<noteq> [] \<and> 10 \<notin> set p \<and> \<not> isspace (last p)"
  then have "strip (ws1 @ (v @ 58 # p) @ ws2) = v @ 58 # p"
    by (intro strip_keeps_core) simp_all
  with a show "extract_user_credentials (Some (ws1 @ (v @ 58 # p) @ ws2)) = (Some v, Some p)"
    by (simp add: extract_user_credentials_def credentials_split)
qed

theorem C10_witness:
  "extract_user_credentials (Some (58 # str ''pwd'')) = (None, None) \<and>
   58 \<notin> set (str ''bob'') \<and>
   extract_user_credentials (Some (str ''bob'' @ [58])) = (None, None) \<and>
   list_all isspace (str ''  '') \<and> list_all isspace [32, 10] \<and>
   str ''bob'' \<noteq> [] \<and> \<not> isspace (hd (str ''bob'')) \<and>
   str ''pwd'' \<noteq> [] \<and> 10 \<notin> set (str ''pwd'') \<and> \<not> isspace (last (str ''pwd'')) \<and>
   extract_user_credentials (Some (str ''  '' @ (str ''bob'' @ 58 # str ''pwd'') @ [32, 10]))
     = (Some (str ''bob''), Some (str ''pwd''))"
proof -
  have h: "58 \<notin> set (str ''bob'')" "list_all isspace (str ''  '')" "list_all isspace [32, 10]"
    "str ''bob'' \<noteq> []" "\<not> isspace (hd (str ''bob''))"
    "str ''pwd'' \<noteq> []" "10 \<notin> set (str ''pwd'')" "\<not> isspace (last (str ''pwd''))"
    by (simp_all add: str_def isspace_def)
  show ?thesis
    using h C10_trimmed_and_both_parts_required [of "str ''pwd''" "str ''bob''" "str ''  ''"
        "[32, 10]" "str ''bob''" "str ''pwd''"]
    by blast
qed

text \<open>
  C8, as stated, returns every token \<open>t\<close> from the header \<open>Basic t\<close>. The header is
  stripped and the pattern asks for at least one character: the empty token gives
  \<open>None\<close>, and a token that ends with a space comes back without it.
\<close>

theorem C8_counterexample:
  "extract_base64_authorization_header (Some (str ''Basic '' @ str '''')) = None \<and>
   extract_base64_authorization_header (Some (str ''Basic '' @ str ''QQ== '')) = Some (str ''QQ=='')"
  by (simp add: extract_base64_authorization_header_def basic_pattern_def strip_def isspace_def
      str_def)

text \<open>
  C8 (amended). For every string \<open>s\<close> of Unicode scalar values,
  \<open>decode_base64_authorization_header\<close> applied to the base64 encoding of the UTF-8
  encoding of \<open>s\<close> returns \<open>s\<close>. For every token \<open>t\<close> that is not empty, has no newline
  and does not end with whitespace, \<open>extract_base64_authorization_header\<close> returns \<open>t\<close>
  from \<open>Basic t\<close>. For every \<open>t\<close> it returns \<open>None\<close> from \<open>Bearer t\<close>.
\<close>

theorem C8_round_trip_and_scheme:
  "(list_all unicode_scalar s \<longrightarrow>
      decode_base64_authorization_header (Some (b64encode (utf8_encode s))) = Inr (Some s)) \<and>
   (t \<noteq> [] \<and> 10 \<notin> set t \<and> \<not> isspace (last t) \<longrightarrow>
      extract_base64_authorization_header (Some (str ''Basic '' @ t)) = Some t) \<and>
   extract_base64_authorization_header (Some (str ''Bearer '' @ t)) = None"
proof (intro conjI impI)
  assume s: "list_all unicode_scalar s"
  show "decode_base64_authorization_header (Some (b64encode (utf8_encode s))) = Inr (Some s)"
    by (simp add: decode_base64_authorization_header_def
        b64decode_b64encode [OF utf8_encode_bytes [OF s]] utf8_decode_utf8_encode [OF s])
next
  assume t: "t \<noteq> [] \<and> 10 \<notin> set t \<and> \<not> isspace (last t)"
  have "strip ([] @ (str ''Basic '' @ t) @ []) = str ''Basic '' @ t"
    using t by (intro strip_keeps_core) (simp_all add: str_def isspace_def)
  then show "extract_base64_authorization_header (Some (str ''Basic '' @ t)) = Some t"
    using t by (simp add: extract_base64_authorization_header_def basic_token)
next
  have "\<not> isspace 66" "\<not> isspace 101" by (simp_all add: isspace_def)
  then obtain r where "strip (66 # 101 # (str ''arer '' @ t)) = 66 # 101 # r"
    using strip_keeps_two [of 66 101 "str ''arer '' @ t"] by blast
  moreover have "str ''Bearer '' @ t = 66 # 101 # (str ''arer '' @ t)"
    by (simp add: str_def)
  moreover have "re_run True basic_pattern (66 # 101 # r) = None"
    by (simp add: basic_pattern_def str_def)
  ultimately show "extract_base64_authorization_header (Some (str ''Bearer '' @ t)) = None"
    by (simp add: extract_base64_authorization_header_def)
qed

theorem C8_witness:
  "list_all unicode_scalar [233, 58, 8364] \<and>
   decode_base64_authorization_header (Some (b64encode (utf8_encode [233, 58, 8364])))
     = Inr (Some [233, 58, 8364]) \<and>
   str ''Ym9iOnB3ZA=='' \<noteq> [] \<and> 10 \<notin> set (str ''Ym9iOnB3ZA=='') \<and>
   \<not> isspace (last (str ''Ym9iOnB3ZA=='')) \<and>
   extract_base64_authorization_header (Some (str ''Basic '' @ str ''Ym9iOnB3ZA==''))
     = Some (str ''Ym9iOnB3ZA=='') \<and>
   extract_base64_authorization_header (Some (str ''Bearer '' @ str ''Ym9iOnB3ZA=='')) = None"
proof -
  have a: "list_all unicode_scalar [233, 58, 8364]"
    by (simp add: unicode_scalar_def)
  have b: "str ''Ym9iOnB3ZA=='' \<noteq> []" "10 \<notin> set (str ''Ym9iOnB3ZA=='')"
    "\<not> isspace (last (str ''Ym9iOnB3ZA==''))"
    by (simp_all add: str_def isspace_def)
  show ?thesis
    using a b C8_round_trip_and_scheme [of "[233, 58, 8364]" "str ''Ym9iOnB3ZA==''"]
    by blast
qed


end
